theory Spec2Isabelle
  imports Main "HOL-Library.Word" "HOL-Library.Multiset"
begin

section \<open>JavaScript strings and \<open>String.prototype.trim\<close>\<close>

text \<open>
  A JavaScript string is a finite sequence of 16-bit code units. String equality (and
  the key equality of a \<open>Map\<close> on strings) is equality of these sequences.
\<close>

type_synonym js_string = "16 word list"

text \<open>An ASCII literal of the source text, as code units.\<close>

definition lit :: "string \<Rightarrow> js_string" where
  "lit s = map (\<lambda>c. of_char c) s"

text \<open>
  \<open>trim\<close> removes, from both ends, the code units that ECMAScript calls WhiteSpace
  (TAB, VT, FF, ZWNBSP and the Unicode space separators) or LineTerminator (LF, CR, LS, PS).
\<close>

definition isWhiteSpace :: "16 word \<Rightarrow> bool" where
  "isWhiteSpace c \<longleftrightarrow>
     c = 0x0009 \<or> c = 0x000B \<or> c = 0x000C \<or> c = 0xFEFF \<or>
     c = 0x0020 \<or> c = 0x00A0 \<or> c = 0x1680 \<or> (0x2000 \<le> c \<and> c \<le> 0x200A) \<or>
     c = 0x202F \<or> c = 0x205F \<or> c = 0x3000"

definition isLineTerminator :: "16 word \<Rightarrow> bool" where
  "isLineTerminator c \<longleftrightarrow> c = 0x000A \<or> c = 0x000D \<or> c = 0x2028 \<or> c = 0x2029"

definition trimmable :: "16 word \<Rightarrow> bool" where
  "trimmable c \<longleftrightarrow> isWhiteSpace c \<or> isLineTerminator c"

definition trimStart :: "js_string \<Rightarrow> js_string" where
  "trimStart s = dropWhile trimmable s"

definition trimEnd :: "js_string \<Rightarrow> js_string" where
  "trimEnd s = rev (dropWhile trimmable (rev s))"

definition trim :: "js_string \<Rightarrow> js_string" where
  "trim s = trimEnd (trimStart s)"

section \<open>The Todo entity\<close>

text \<open>
  A \<open>Date\<close> holds a time value: an integer number of milliseconds since the epoch, or
  \<open>NaN\<close>, which makes it an Invalid Date. \<open>getTime()\<close> returns the time value as a
  number. Of numbers only the integers and \<open>NaN\<close> occur here; a difference of two time
  values is kept exact, its sign being the sign of the rounded difference.
\<close>

datatype js_number = Num int | NaN

datatype Date = Date int | InvalidDate

fun getTime :: "Date \<Rightarrow> js_number" where
  "getTime (Date ms) = Num ms"
| "getTime InvalidDate = NaN"

fun number_sub :: "js_number \<Rightarrow> js_number \<Rightarrow> js_number" where
  "number_sub (Num a) (Num b) = Num (a - b)"
| "number_sub a b = NaN"

definition isValid :: "Date \<Rightarrow> bool" where
  "isValid d \<longleftrightarrow> d \<noteq> InvalidDate"

text \<open>
  Dates are compared as JavaScript compares them with \<open><=\<close> and \<open><\<close>: by their time
  values, every comparison with \<open>NaN\<close> being false.
\<close>

instantiation Date :: ord
begin

definition less_eq_Date :: "Date \<Rightarrow> Date \<Rightarrow> bool" where
  "less_eq_Date a b \<longleftrightarrow>
     (case getTime a of NaN \<Rightarrow> False
      | Num x \<Rightarrow> (case getTime b of NaN \<Rightarrow> False | Num y \<Rightarrow> x \<le> y))"

definition less_Date :: "Date \<Rightarrow> Date \<Rightarrow> bool" where
  "less_Date a b \<longleftrightarrow>
     (case getTime a of NaN \<Rightarrow> False
      | Num x \<Rightarrow> (case getTime b of NaN \<Rightarrow> False | Num y \<Rightarrow> x < y))"

instance ..

end

text \<open>
  \<open>TodoStatus\<close> is the two-valued union \<open>'pending' | 'completed'\<close>. The constructor
  of \<open>Todo\<close> stores its six arguments as they come. \<open>new Date()\<close> reads the clock and
  gives the valid date \<open>Date now\<close>; every mutating method receives the clock reading as
  the argument \<open>now\<close>.
\<close>

datatype TodoStatus = PENDING | COMPLETED

record Todo =
  id' :: js_string
  title :: js_string
  description :: js_string
  status :: TodoStatus
  createdAt :: Date
  updatedAt :: Date

text \<open>Every \<open>throw new Error(msg)\<close> of the source is the value \<open>Error msg\<close>.\<close>

datatype error = Error js_string

text \<open>
  A method of the class mutates \<open>this\<close> and returns nothing or throws. Its model takes
  the entity and returns the outcome together with the entity as the call leaves it.
\<close>

definition canBeCompleted :: "Todo \<Rightarrow> bool" where
  "canBeCompleted t \<longleftrightarrow> status t = PENDING \<and> length (trim (title t)) > 0"

definition canBeUncompleted :: "Todo \<Rightarrow> bool" where
  "canBeUncompleted t \<longleftrightarrow> status t = COMPLETED"

definition complete :: "int \<Rightarrow> Todo \<Rightarrow> (error + unit) \<times> Todo" where
  "complete now t =
     (if \<not> canBeCompleted t then (Inl (Error (lit ''Todo cannot be completed'')), t)
      else (Inr (), t\<lparr>status := COMPLETED, updatedAt := Date now\<rparr>))"

definition uncomplete :: "int \<Rightarrow> Todo \<Rightarrow> (error + unit) \<times> Todo" where
  "uncomplete now t =
     (if \<not> canBeUncompleted t then (Inl (Error (lit ''Todo is not completed'')), t)
      else (Inr (), t\<lparr>status := PENDING, updatedAt := Date now\<rparr>))"

definition updateTitle :: "int \<Rightarrow> js_string \<Rightarrow> Todo \<Rightarrow> (error + unit) \<times> Todo" where
  "updateTitle now newTitle t =
     (if length (trim newTitle) = 0 then (Inl (Error (lit ''Title cannot be empty'')), t)
      else (Inr (), t\<lparr>title := trim newTitle, updatedAt := Date now\<rparr>))"

definition updateDescription :: "int \<Rightarrow> js_string \<Rightarrow> Todo \<Rightarrow> (error + unit) \<times> Todo" where
  "updateDescription now newDescription t =
     (Inr (), t\<lparr>description := trim newDescription, updatedAt := Date now\<rparr>)"

definition isCompleted :: "Todo \<Rightarrow> bool" where
  "isCompleted t \<longleftrightarrow> status t = COMPLETED"

definition isPending :: "Todo \<Rightarrow> bool" where
  "isPending t \<longleftrightarrow> status t = PENDING"

text \<open>
  The entity's public operations as data, so that a history of calls can be replayed:
  each call comes with the clock reading its \<open>new Date()\<close> would see, and a caller
  that catches a thrown error carries on with the entity as the failed call left it.
\<close>

datatype todo_op =
    Complete
  | Uncomplete
  | UpdateTitle js_string
  | UpdateDescription js_string

fun call :: "int \<Rightarrow> todo_op \<Rightarrow> Todo \<Rightarrow> (error + unit) \<times> Todo" where
  "call now Complete t = complete now t"
| "call now Uncomplete t = uncomplete now t"
| "call now (UpdateTitle s) t = updateTitle now s t"
| "call now (UpdateDescription s) t = updateDescription now s t"

fun calls :: "(int \<times> todo_op) list \<Rightarrow> Todo \<Rightarrow> Todo" where
  "calls [] t = t"
| "calls ((now, op) # ops) t = calls ops (snd (call now op t))"

section \<open>\<open>Map\<close> and \<open>Array.prototype.sort\<close>\<close>

text \<open>
  A \<open>Map\<close> keeps its entries in insertion order, one entry per key. \<open>set\<close> on a key
  that is present replaces the value where the entry stands; on an absent key it appends
  the entry. \<open>get\<close> answers \<open>undefined\<close> (here \<open>None\<close>) for an absent key, \<open>delete\<close>
  removes the entry of the key and \<open>values()\<close> iterates in insertion order.
\<close>

type_synonym 'v js_map = "(js_string \<times> 'v) list"

fun map_set :: "js_string \<Rightarrow> 'v \<Rightarrow> 'v js_map \<Rightarrow> 'v js_map" where
  "map_set k v [] = [(k, v)]"
| "map_set k v (e # m) = (if fst e = k then (k, v) # m else e # map_set k v m)"

definition map_get :: "js_string \<Rightarrow> 'v js_map \<Rightarrow> 'v option" where
  "map_get k m = map_of m k"

definition map_has :: "js_string \<Rightarrow> 'v js_map \<Rightarrow> bool" where
  "map_has k m \<longleftrightarrow> k \<in> set (map fst m)"

definition map_delete :: "js_string \<Rightarrow> 'v js_map \<Rightarrow> 'v js_map" where
  "map_delete k m = filter (\<lambda>e. fst e \<noteq> k) m"

definition map_values :: "'v js_map \<Rightarrow> 'v list" where
  "map_values m = map snd m"

text \<open>The lists that stand for a \<open>Map\<close> hold each key once.\<close>

definition map_wf :: "'v js_map \<Rightarrow> bool" where
  "map_wf m \<longleftrightarrow> distinct (map fst m)"

text \<open>
  \<open>sort(compareFn)\<close> is stable, and orders \<open>a\<close> before \<open>b\<close> when \<open>compareFn(a, b)\<close> is
  negative; an answer \<open>NaN\<close> is read as \<open>+0\<close>. For a comparator that is a consistent
  ordering the sorted array is determined by that, and insertion from the right computes
  it. For any other comparator the standard leaves the order to the implementation; the
  result is still a rearrangement of the array, here the one the same insertion yields.
\<close>

definition SortCompare :: "('a \<Rightarrow> 'a \<Rightarrow> js_number) \<Rightarrow> 'a \<Rightarrow> 'a \<Rightarrow> int" where
  "SortCompare compareFn x y = (case compareFn x y of NaN \<Rightarrow> 0 | Num v \<Rightarrow> v)"

fun insert_sorted :: "('a \<Rightarrow> 'a \<Rightarrow> js_number) \<Rightarrow> 'a \<Rightarrow> 'a list \<Rightarrow> 'a list" where
  "insert_sorted compareFn x [] = [x]"
| "insert_sorted compareFn x (y # ys) =
     (if SortCompare compareFn x y \<le> 0 then x # y # ys
      else y # insert_sorted compareFn x ys)"

definition array_sort :: "('a \<Rightarrow> 'a \<Rightarrow> js_number) \<Rightarrow> 'a list \<Rightarrow> 'a list" where
  "array_sort compareFn xs = foldr (insert_sorted compareFn) xs []"

section \<open>The in-memory repository\<close>

text \<open>
  The repository owns one \<open>Map\<close> from id to entity. Its methods are \<open>async\<close> but run to
  completion without suspending: the model gives the value the promise settles with
  (\<open>Inl\<close> for a rejection) and the repository as the call leaves it. \<open>null\<close> is \<open>None\<close>.
\<close>

record InMemoryTodoRepository =
  todos :: "Todo js_map"

text \<open>The comparator \<open>(a, b) => b.createdAt.getTime() - a.createdAt.getTime()\<close>.\<close>

definition byCreatedAtDesc :: "Todo \<Rightarrow> Todo \<Rightarrow> js_number" where
  "byCreatedAtDesc a b = number_sub (getTime (createdAt b)) (getTime (createdAt a))"

text \<open>The stores in which every entity has a valid \<open>createdAt\<close>.\<close>

definition validCreatedAt :: "InMemoryTodoRepository \<Rightarrow> bool" where
  "validCreatedAt r \<longleftrightarrow> list_all (\<lambda>t. isValid (createdAt t)) (map_values (todos r))"

definition findAll :: "InMemoryTodoRepository \<Rightarrow> Todo list" where
  "findAll r = array_sort byCreatedAtDesc (map_values (todos r))"

text \<open>In \<open>this.todos.get(id) || null\<close> a stored entity is an object, hence truthy.\<close>

definition findById :: "js_string \<Rightarrow> InMemoryTodoRepository \<Rightarrow> Todo option" where
  "findById i r = (case map_get i (todos r) of Some todo \<Rightarrow> Some todo | None \<Rightarrow> None)"

definition create :: "Todo \<Rightarrow> InMemoryTodoRepository \<Rightarrow> Todo \<times> InMemoryTodoRepository" where
  "create todo r = (todo, r\<lparr>todos := map_set (id' todo) todo (todos r)\<rparr>)"

definition notFound :: "js_string \<Rightarrow> error" where
  "notFound i = Error (lit ''Todo with id '' @ i @ lit '' not found'')"

definition update ::
  "Todo \<Rightarrow> InMemoryTodoRepository \<Rightarrow> (error + Todo) \<times> InMemoryTodoRepository" where
  "update todo r =
     (if \<not> map_has (id' todo) (todos r) then (Inl (notFound (id' todo)), r)
      else (Inr todo, r\<lparr>todos := map_set (id' todo) todo (todos r)\<rparr>))"

definition delete ::
  "js_string \<Rightarrow> InMemoryTodoRepository \<Rightarrow> (error + unit) \<times> InMemoryTodoRepository" where
  "delete i r =
     (if \<not> map_has i (todos r) then (Inl (notFound i), r)
      else (Inr (), r\<lparr>todos := map_delete i (todos r)\<rparr>))"

section \<open>The invokers\<close>

text \<open>
  \<open>ServiceInvoker\<close>, \<open>RepositoryInvoker\<close> and \<open>LogicInvoker\<close> each hold a
  \<open>Map<string, unknown>\<close> and differ only in the noun of their error message. A value
  of type \<open>unknown\<close> is any JavaScript value; what \<open>invoke\<close> looks at is its truthiness.
  Objects are kept to their identity. The instances that the invokers are made to hold
  (services, repositories, logic classes) are objects.
\<close>

datatype js_value =
    JSUndefined
  | JSNull
  | JSBoolean bool
  | JSNumber js_number
  | JSString js_string
  | JSObject nat

fun ToBoolean :: "js_value \<Rightarrow> bool" where
  "ToBoolean JSUndefined = False"
| "ToBoolean JSNull = False"
| "ToBoolean (JSBoolean b) = b"
| "ToBoolean (JSNumber n) = (n \<noteq> Num 0 \<and> n \<noteq> NaN)"
| "ToBoolean (JSString s) = (s \<noteq> [])"
| "ToBoolean (JSObject a) = True"

fun isInstance :: "js_value \<Rightarrow> bool" where
  "isInstance (JSObject a) = True"
| "isInstance v = False"

definition instancesOnly :: "(js_string \<times> js_value) list \<Rightarrow> bool" where
  "instancesOnly m \<longleftrightarrow> list_all (\<lambda>e. isInstance (snd e)) m"

definition register :: "js_string \<Rightarrow> js_value \<Rightarrow> js_value js_map \<Rightarrow> js_value js_map" where
  "register name x m = map_set name x m"

text \<open>
  \<open>invoke\<close> with the noun of the class: the message is
  \<open>`Service '${serviceName}' not found. Did you register it?`\<close>.
\<close>

definition notRegistered :: "js_string \<Rightarrow> js_string \<Rightarrow> error" where
  "notRegistered noun name =
     Error (noun @ [0x20, 0x27] @ name @ [0x27] @ lit '' not found. Did you register it?'')"

definition invoke_of :: "js_string \<Rightarrow> js_string \<Rightarrow> js_value js_map \<Rightarrow> error + js_value" where
  "invoke_of noun name m =
     (let x = (case map_get name m of Some v \<Rightarrow> v | None \<Rightarrow> JSUndefined)
      in if \<not> ToBoolean x then Inl (notRegistered noun name) else Inr x)"

definition ServiceInvoker_invoke :: "js_string \<Rightarrow> js_value js_map \<Rightarrow> error + js_value" where
  "ServiceInvoker_invoke = invoke_of (lit ''Service'')"

definition RepositoryInvoker_invoke :: "js_string \<Rightarrow> js_value js_map \<Rightarrow> error + js_value" where
  "RepositoryInvoker_invoke = invoke_of (lit ''Repository'')"

definition LogicInvoker_invoke :: "js_string \<Rightarrow> js_value js_map \<Rightarrow> error + js_value" where
  "LogicInvoker_invoke = invoke_of (lit ''Logic'')"

definition has :: "js_string \<Rightarrow> js_value js_map \<Rightarrow> bool" where
  "has name m = map_has name m"

definition clear :: "js_value js_map \<Rightarrow> js_value js_map" where
  "clear m = []"

text \<open>A run of \<open>register\<close> calls, oldest first, on a registry.\<close>

fun registers :: "(js_string \<times> js_value) list \<Rightarrow> js_value js_map \<Rightarrow> js_value js_map" where
  "registers [] m = m"
| "registers ((name, x) # rs) m = registers rs (register name x m)"

section \<open>Properties of \<open>trim\<close>\<close>

lemma all_dropWhile_iff:
  "(\<forall>c \<in> set (dropWhile P s). P c) \<longleftrightarrow> (\<forall>c \<in> set s. P c)"
proof
  assume rest: "\<forall>c \<in> set (dropWhile P s). P c"
  have "dropWhile P s = []"
  proof (rule ccontr)
    assume ne: "dropWhile P s \<noteq> []"
    then have "\<not> P (hd (dropWhile P s))" by (rule hd_dropWhile)
    moreover from ne have "hd (dropWhile P s) \<in> set (dropWhile P s)" by simp
    ultimately show False using rest by blast
  qed
  then show "\<forall>c \<in> set s. P c" by simp
next
  assume "\<forall>c \<in> set s. P c"
  then show "\<forall>c \<in> set (dropWhile P s). P c" by (blast dest: set_dropWhileD)
qed

lemma trim_Nil_iff: "trim s = [] \<longleftrightarrow> (\<forall>c \<in> set s. trimmable c)"
  by (simp add: trim_def trimEnd_def trimStart_def all_dropWhile_iff)

lemma trimStart_not_trimmable: "trimStart s \<noteq> [] \<Longrightarrow> \<not> trimmable (hd (trimStart s))"
  unfolding trimStart_def by (rule hd_dropWhile)

lemma trimEnd_not_trimmable: "trimEnd s \<noteq> [] \<Longrightarrow> \<not> trimmable (last (trimEnd s))"
  unfolding trimEnd_def by (simp add: last_rev hd_dropWhile)

lemma trimStart_fixed: "s \<noteq> [] \<Longrightarrow> \<not> trimmable (hd s) \<Longrightarrow> trimStart s = s"
  unfolding trimStart_def by (cases s) simp_all

lemma trimEnd_fixed: "s \<noteq> [] \<Longrightarrow> \<not> trimmable (last s) \<Longrightarrow> trimEnd s = s"
  unfolding trimEnd_def by (cases s rule: rev_cases) simp_all

lemma hd_trimEnd:
  assumes "s \<noteq> []" and "\<not> trimmable (hd s)"
  shows "trimEnd s \<noteq> [] \<and> hd (trimEnd s) = hd s"
proof -
  obtain c cs where s: "s = c # cs" using assms(1) by (cases s) auto
  with assms(2) have c: "\<not> trimmable c" by simp
  have "dropWhile trimmable (rev cs @ [c]) = dropWhile trimmable (rev cs) @ [c]"
    using c by (simp add: dropWhile_append)
  then have "trimEnd s = c # rev (dropWhile trimmable (rev cs))"
    by (simp add: trimEnd_def s)
  then show ?thesis by (simp add: s)
qed

lemma trim_idem: "trim (trim s) = trim s"
proof (cases "trimStart s = []")
  case True
  then have "trim s = []" unfolding trim_def trimEnd_def by simp
  moreover have "trim [] = []" by (simp add: trim_def trimEnd_def trimStart_def)
  ultimately show ?thesis by simp
next
  case False
  let ?u = "trimEnd (trimStart s)"
  from False have h: "?u \<noteq> [] \<and> hd ?u = hd (trimStart s)"
    by (intro hd_trimEnd trimStart_not_trimmable)
  with False have "\<not> trimmable (hd ?u)" by (simp add: trimStart_not_trimmable)
  with h have "trimStart ?u = ?u" by (simp add: trimStart_fixed)
  moreover from h have "trimEnd ?u = ?u"
    by (intro trimEnd_fixed trimEnd_not_trimmable) simp_all
  ultimately show ?thesis by (simp add: trim_def)
qed

lemmas trim_eval = trim_def trimStart_def trimEnd_def trimmable_def isWhiteSpace_def
  isLineTerminator_def lit_def

section \<open>Properties of dates\<close>

lemma le_Date_iff: "Date x \<le> Date y \<longleftrightarrow> x \<le> y"
  by (simp add: less_eq_Date_def)

lemma less_Date_iff: "Date x < Date y \<longleftrightarrow> x < y"
  by (simp add: less_Date_def)

lemma le_Date_trans: "(a::Date) \<le> b \<Longrightarrow> b \<le> c \<Longrightarrow> a \<le> c"
  by (cases a; cases b; cases c) (simp_all add: less_eq_Date_def)

lemma le_Date_total: "isValid a \<Longrightarrow> isValid b \<Longrightarrow> a \<le> b \<or> b \<le> a"
  by (cases a; cases b) (auto simp: less_eq_Date_def isValid_def)

lemma less_Date_not_le: "(a::Date) < b \<Longrightarrow> \<not> b \<le> a"
  by (cases a; cases b) (simp_all add: less_eq_Date_def less_Date_def)

lemma SortCompare_byCreatedAtDesc:
  "isValid (createdAt x) \<Longrightarrow> isValid (createdAt y) \<Longrightarrow>
   (SortCompare byCreatedAtDesc x y \<le> 0) = (createdAt y \<le> createdAt x)"
  by (cases "createdAt x"; cases "createdAt y")
    (simp_all add: SortCompare_def byCreatedAtDesc_def less_eq_Date_def isValid_def)

lemmas date_eval = less_eq_Date_def less_Date_def isValid_def SortCompare_def

section \<open>Properties of the \<open>Map\<close> model and of sorting\<close>

lemma map_get_map_set: "map_get j (map_set k v m) = (if j = k then Some v else map_get j m)"
  by (induction m) (auto simp: map_get_def)

lemma map_get_map_delete: "map_get j (map_delete k m) = (if j = k then None else map_get j m)"
  by (induction m) (auto simp: map_get_def map_delete_def)

lemma map_has_iff_get: "map_has k m \<longleftrightarrow> map_get k m \<noteq> None"
  by (simp add: map_has_def map_get_def map_of_eq_None_iff)

lemma keys_map_set_present: "map_has k m \<Longrightarrow> map fst (map_set k v m) = map fst m"
  by (induction m) (auto simp: map_has_def)

lemma keys_map_set_absent: "\<not> map_has k m \<Longrightarrow> map_set k v m = m @ [(k, v)]"
  by (induction m) (auto simp: map_has_def)

lemma others_map_set:
  "filter (\<lambda>e. fst e \<noteq> k) (map_set k v m) = filter (\<lambda>e. fst e \<noteq> k) m"
  by (induction m) auto

lemma map_delete_absent: "\<not> map_has k m \<Longrightarrow> map_delete k m = m"
  by (induction m) (auto simp: map_has_def map_delete_def)

lemma map_delete_splits:
  "map_wf m \<Longrightarrow> map_has k m \<Longrightarrow>
   \<exists>xs v ys. m = xs @ (k, v) # ys \<and> map_delete k m = xs @ ys"
proof (induction m)
  case Nil
  then show ?case by (simp add: map_has_def)
next
  case (Cons e m)
  show ?case
  proof (cases "fst e = k")
    case True
    with Cons.prems(1) have "\<not> map_has k m" by (auto simp: map_wf_def map_has_def)
    then have "map_delete k m = m" by (rule map_delete_absent)
    with True have "e # m = [] @ (k, snd e) # m \<and> map_delete k (e # m) = [] @ m"
      by (auto simp: map_delete_def)
    then show ?thesis by blast
  next
    case False
    with Cons.prems have "map_wf m" and "map_has k m"
      by (auto simp: map_wf_def map_has_def)
    then obtain xs v ys where "m = xs @ (k, v) # ys" and "map_delete k m = xs @ ys"
      using Cons.IH by blast
    with False have "e # m = (e # xs) @ (k, v) # ys \<and> map_delete k (e # m) = (e # xs) @ ys"
      by (simp add: map_delete_def)
    then show ?thesis by blast
  qed
qed

lemma map_wf_map_set: "map_wf m \<Longrightarrow> map_wf (map_set k v m)"
proof (cases "map_has k m")
  case True
  assume "map_wf m"
  with True show ?thesis by (simp add: map_wf_def keys_map_set_present)
next
  case False
  assume "map_wf m"
  with False show ?thesis by (simp add: map_wf_def keys_map_set_absent map_has_def)
qed

lemma map_wf_map_delete: "map_wf m \<Longrightarrow> map_wf (map_delete k m)"
  by (simp add: map_wf_def map_delete_def distinct_map_filter)

lemma mset_insert_sorted: "mset (insert_sorted compareFn x ys) = add_mset x (mset ys)"
  by (induction ys) simp_all

lemma mset_array_sort: "mset (array_sort compareFn xs) = mset xs"
  by (induction xs) (simp_all add: array_sort_def mset_insert_sorted)

lemma set_insert_sorted: "set (insert_sorted compareFn x ys) = insert x (set ys)"
  by (induction ys) auto

lemma sorted_insert_byCreatedAtDesc:
  assumes "isValid (createdAt x)"
    and "list_all (\<lambda>t. isValid (createdAt t)) ys"
    and "sorted_wrt (\<lambda>a b. createdAt b \<le> createdAt a) ys"
  shows "sorted_wrt (\<lambda>a b. createdAt b \<le> createdAt a) (insert_sorted byCreatedAtDesc x ys)"
  using assms(2,3)
proof (induction ys)
  case Nil
  show ?case by simp
next
  case (Cons y ys)
  from Cons.prems have vy: "isValid (createdAt y)"
    and vys: "list_all (\<lambda>t. isValid (createdAt t)) ys"
    and below: "\<forall>z \<in> set ys. createdAt z \<le> createdAt y"
    and sorted: "sorted_wrt (\<lambda>a b. createdAt b \<le> createdAt a) ys"
    by simp_all
  have cmp: "(SortCompare byCreatedAtDesc x y \<le> 0) = (createdAt y \<le> createdAt x)"
    using assms(1) vy by (rule SortCompare_byCreatedAtDesc)
  show ?case
  proof (cases "createdAt y \<le> createdAt x")
    case True
    with below have "\<forall>z \<in> set ys. createdAt z \<le> createdAt x"
      by (blast intro: le_Date_trans)
    with True cmp Cons.prems(2) show ?thesis by simp
  next
    case False
    with assms(1) vy have "createdAt x \<le> createdAt y"
      using le_Date_total by blast
    moreover have "sorted_wrt (\<lambda>a b. createdAt b \<le> createdAt a)
        (insert_sorted byCreatedAtDesc x ys)"
      using vys sorted by (rule Cons.IH)
    ultimately show ?thesis
      using False cmp below by (simp add: set_insert_sorted)
  qed
qed

lemma sorted_array_sort_byCreatedAtDesc:
  "list_all (\<lambda>t. isValid (createdAt t)) xs \<Longrightarrow>
   sorted_wrt (\<lambda>a b. createdAt b \<le> createdAt a) (array_sort byCreatedAtDesc xs)"
proof (induction xs)
  case Nil
  show ?case by (simp add: array_sort_def)
next
  case (Cons x xs)
  let ?rest = "array_sort byCreatedAtDesc xs"
  from Cons.prems have vx: "isValid (createdAt x)"
    and vxs: "list_all (\<lambda>t. isValid (createdAt t)) xs"
    by simp_all
  have "set ?rest = set xs"
    using mset_array_sort [of byCreatedAtDesc xs] by (metis set_mset_mset)
  with vxs have "list_all (\<lambda>t. isValid (createdAt t)) ?rest"
    by (simp add: list_all_iff)
  moreover from vxs have "sorted_wrt (\<lambda>a b. createdAt b \<le> createdAt a) ?rest"
    by (rule Cons.IH)
  ultimately have "sorted_wrt (\<lambda>a b. createdAt b \<le> createdAt a)
      (insert_sorted byCreatedAtDesc x ?rest)"
    using vx by (intro sorted_insert_byCreatedAtDesc)
  then show ?case by (simp add: array_sort_def)
qed

section \<open>Claims about the Todo entity\<close>

lemma call_failure_unchanged: "fst (call now op t) = Inl e \<Longrightarrow> snd (call now op t) = t"
  by (cases op)
    (simp_all add: complete_def uncomplete_def updateTitle_def updateDescription_def
      split: if_splits)

lemma call_success_updatedAt:
  "fst (call now op t) = Inr u \<Longrightarrow> updatedAt (snd (call now op t)) = Date now"
  by (cases op)
    (simp_all add: complete_def uncomplete_def updateTitle_def updateDescription_def
      split: if_splits)

lemma call_createdAt: "createdAt (snd (call now op t)) = createdAt t"
  by (cases op)
    (simp_all add: complete_def uncomplete_def updateTitle_def updateDescription_def)

lemma call_id: "id' (snd (call now op t)) = id' t"
  by (cases op)
    (simp_all add: complete_def uncomplete_def updateTitle_def updateDescription_def)

lemma call_keeps_order:
  assumes "createdAt t \<le> updatedAt t" and "createdAt t \<le> Date now"
  shows "createdAt (snd (call now op t)) \<le> updatedAt (snd (call now op t))"
proof (cases "fst (call now op t)")
  case (Inl e)
  then have "snd (call now op t) = t" by (rule call_failure_unchanged)
  with assms(1) show ?thesis by simp
next
  case (Inr u)
  then have "updatedAt (snd (call now op t)) = Date now" by (rule call_success_updatedAt)
  with assms(2) show ?thesis by (simp add: call_createdAt)
qed

lemma calls_createdAt: "createdAt (calls ops t) = createdAt t"
  by (induction ops t rule: calls.induct) (simp_all add: call_createdAt)

lemma calls_keep_order:
  "createdAt t \<le> updatedAt t \<Longrightarrow> \<forall>(now, op) \<in> set ops. createdAt t \<le> Date now \<Longrightarrow>
   createdAt (calls ops t) \<le> updatedAt (calls ops t)"
proof (induction ops t rule: calls.induct)
  case (1 t)
  then show ?case by simp
next
  case (2 now op ops t)
  let ?t' = "snd (call now op t)"
  from "2.prems" have "createdAt ?t' \<le> updatedAt ?t'"
    by (intro call_keeps_order) simp_all
  moreover from "2.prems" have "\<forall>(now, op) \<in> set ops. createdAt ?t' \<le> Date now"
    by (simp add: call_createdAt)
  ultimately show ?case using "2.IH" by simp
qed

text \<open>
  C1. \<open>complete()\<close> throws (the error the specification calls a domain-rule violation,
  in the source \<open>Error('Todo cannot be completed')\<close>) exactly when \<open>canBeCompleted()\<close>
  is false, that is when the status is not pending or the trimmed title is empty, and
  then leaves the entity as it was. Otherwise it returns normally with the status set
  to completed and \<open>updatedAt\<close> set to the clock reading, and nothing else touched.
  A second \<open>complete()\<close> right after a successful one throws.
\<close>

theorem complete_guarded_by_canBeCompleted:
  "(canBeCompleted t \<longleftrightarrow> status t = PENDING \<and> trim (title t) \<noteq> []) \<and>
   (fst (complete now t) = Inl (Error (lit ''Todo cannot be completed'')) \<longleftrightarrow> \<not> canBeCompleted t) \<and>
   (fst (complete now t) = Inr () \<longleftrightarrow> canBeCompleted t) \<and>
   (\<not> canBeCompleted t \<longrightarrow> snd (complete now t) = t) \<and>
   (canBeCompleted t \<longrightarrow>
      snd (complete now t) = t\<lparr>status := COMPLETED, updatedAt := Date now\<rparr>) \<and>
   (status t = PENDING \<and> trim (title t) \<noteq> [] \<longrightarrow>
      fst (complete now t) = Inr () \<and>
      complete now' (snd (complete now t)) =
        (Inl (Error (lit ''Todo cannot be completed'')), snd (complete now t)))"
  by (simp add: complete_def canBeCompleted_def)

theorem complete_guarded_by_canBeCompleted_witness:
  "canBeCompleted \<lparr>id' = lit ''t1'', title = lit ''Buy milk'', description = [],
      status = PENDING, createdAt = Date 1000, updatedAt = Date 1000\<rparr> \<and>
   complete 2000 \<lparr>id' = lit ''t1'', title = lit ''Buy milk'', description = [],
      status = PENDING, createdAt = Date 1000, updatedAt = Date 1000\<rparr> =
     (Inr (), \<lparr>id' = lit ''t1'', title = lit ''Buy milk'', description = [],
      status = COMPLETED, createdAt = Date 1000, updatedAt = Date 2000\<rparr>) \<and>
   fst (complete 3000 (snd (complete 2000 \<lparr>id' = lit ''t1'', title = lit ''Buy milk'',
      description = [], status = PENDING, createdAt = Date 1000, updatedAt = Date 1000\<rparr>))) =
     Inl (Error (lit ''Todo cannot be completed'')) \<and>
   \<not> canBeCompleted \<lparr>id' = lit ''t2'', title = lit ''  '', description = [],
      status = PENDING, createdAt = Date 1000, updatedAt = Date 1000\<rparr> \<and>
   complete 2000 \<lparr>id' = lit ''t2'', title = lit ''  '', description = [],
      status = PENDING, createdAt = Date 1000, updatedAt = Date 1000\<rparr> =
     (Inl (Error (lit ''Todo cannot be completed'')), \<lparr>id' = lit ''t2'', title = lit ''  '',
      description = [], status = PENDING, createdAt = Date 1000, updatedAt = Date 1000\<rparr>)"
  using
    complete_guarded_by_canBeCompleted [of "\<lparr>id' = lit ''t1'', title = lit ''Buy milk'',
      description = [], status = PENDING, createdAt = Date 1000, updatedAt = Date 1000\<rparr>" 2000 3000]
    complete_guarded_by_canBeCompleted [of "\<lparr>id' = lit ''t2'', title = lit ''  '',
      description = [], status = PENDING, createdAt = Date 1000, updatedAt = Date 1000\<rparr>" 2000 3000]
  by (simp add: canBeCompleted_def complete_def trim_eval)

text \<open>
  C2, as the code has it. A title that trims to the empty string makes \<open>updateTitle\<close>
  throw (\<open>Error('Title cannot be empty')\<close>, the specification's validation error) and
  leaves every field as it was. Any other title is accepted: the stored title is the
  trimmed input, \<open>updatedAt\<close> is the clock reading and the remaining fields are
  untouched. The new \<open>updatedAt\<close> is later than or equal to the old one whenever the
  old one is not ahead of the clock, that is, is a date at or before the clock reading.
\<close>

theorem updateTitle_validates_and_trims:
  "(trim newTitle = [] \<longrightarrow>
      updateTitle now newTitle t = (Inl (Error (lit ''Title cannot be empty'')), t)) \<and>
   (trim newTitle \<noteq> [] \<longrightarrow>
      fst (updateTitle now newTitle t) = Inr () \<and>
      title (snd (updateTitle now newTitle t)) = trim newTitle \<and>
      updatedAt (snd (updateTitle now newTitle t)) = Date now \<and>
      snd (updateTitle now newTitle t) = t\<lparr>title := trim newTitle, updatedAt := Date now\<rparr> \<and>
      (updatedAt t \<le> Date now \<longrightarrow>
         updatedAt t \<le> updatedAt (snd (updateTitle now newTitle t))))"
  by (simp add: updateTitle_def)

theorem updateTitle_validates_and_trims_witness:
  "trim (lit ''  Buy oat milk '') \<noteq> [] \<and>
   updateTitle 2000 (lit ''  Buy oat milk '')
     \<lparr>id' = lit ''t1'', title = lit ''Buy milk'', description = [],
      status = PENDING, createdAt = Date 1000, updatedAt = Date 1000\<rparr> =
     (Inr (), \<lparr>id' = lit ''t1'', title = lit ''Buy oat milk'', description = [],
      status = PENDING, createdAt = Date 1000, updatedAt = Date 2000\<rparr>) \<and>
   trim [0x20, 0x09, 0x0A] = [] \<and>
   updateTitle 2000 [0x20, 0x09, 0x0A]
     \<lparr>id' = lit ''t1'', title = lit ''Buy milk'', description = [],
      status = PENDING, createdAt = Date 1000, updatedAt = Date 1000\<rparr> =
     (Inl (Error (lit ''Title cannot be empty'')),
      \<lparr>id' = lit ''t1'', title = lit ''Buy milk'', description = [],
      status = PENDING, createdAt = Date 1000, updatedAt = Date 1000\<rparr>)"
  using
    updateTitle_validates_and_trims [of "lit ''  Buy oat milk ''" 2000
      "\<lparr>id' = lit ''t1'', title = lit ''Buy milk'', description = [],
        status = PENDING, createdAt = Date 1000, updatedAt = Date 1000\<rparr>"]
    updateTitle_validates_and_trims [of "[0x20, 0x09, 0x0A]" 2000
      "\<lparr>id' = lit ''t1'', title = lit ''Buy milk'', description = [],
        status = PENDING, createdAt = Date 1000, updatedAt = Date 1000\<rparr>"]
  by (simp add: updateTitle_def trim_eval)

text \<open>
  The claim as written fails for an entity whose \<open>updatedAt\<close> is ahead of the clock
  (the constructor takes any date): the call succeeds and \<open>updatedAt\<close> moves back.
\<close>

theorem updateTitle_later_or_equal_counterexample:
  "fst (updateTitle 2000 (lit ''Buy oat milk'')
     \<lparr>id' = lit ''t1'', title = lit ''Buy milk'', description = [],
      status = PENDING, createdAt = Date 1000, updatedAt = Date 5000\<rparr>) = Inr () \<and>
   \<not> updatedAt \<lparr>id' = lit ''t1'', title = lit ''Buy milk'', description = [],
      status = PENDING, createdAt = Date 1000, updatedAt = Date 5000\<rparr>
     \<le> updatedAt (snd (updateTitle 2000 (lit ''Buy oat milk'')
     \<lparr>id' = lit ''t1'', title = lit ''Buy milk'', description = [],
      status = PENDING, createdAt = Date 1000, updatedAt = Date 5000\<rparr>))"
  by (simp add: updateTitle_def trim_eval date_eval)

text \<open>
  C6. \<open>uncomplete()\<close> is strict: on an entity that is not completed it throws
  (\<open>Error('Todo is not completed')\<close>, a domain-rule violation) and changes nothing; on a
  completed entity it returns normally, sets the status to pending and \<open>updatedAt\<close> to
  the clock reading, and touches nothing else.
\<close>

theorem uncomplete_strict:
  "(canBeUncompleted t \<longleftrightarrow> status t = COMPLETED) \<and>
   (status t \<noteq> COMPLETED \<longrightarrow>
      uncomplete now t = (Inl (Error (lit ''Todo is not completed'')), t)) \<and>
   (status t = COMPLETED \<longrightarrow>
      fst (uncomplete now t) = Inr () \<and>
      status (snd (uncomplete now t)) = PENDING \<and>
      updatedAt (snd (uncomplete now t)) = Date now \<and>
      snd (uncomplete now t) = t\<lparr>status := PENDING, updatedAt := Date now\<rparr>)"
  by (simp add: uncomplete_def canBeUncompleted_def)

theorem uncomplete_strict_witness:
  "status \<lparr>id' = lit ''t1'', title = lit ''Buy milk'', description = [],
      status = PENDING, createdAt = Date 1000, updatedAt = Date 1000\<rparr> \<noteq> COMPLETED \<and>
   uncomplete 2000 \<lparr>id' = lit ''t1'', title = lit ''Buy milk'', description = [],
      status = PENDING, createdAt = Date 1000, updatedAt = Date 1000\<rparr> =
     (Inl (Error (lit ''Todo is not completed'')),
      \<lparr>id' = lit ''t1'', title = lit ''Buy milk'', description = [],
      status = PENDING, createdAt = Date 1000, updatedAt = Date 1000\<rparr>) \<and>
   status \<lparr>id' = lit ''t1'', title = lit ''Buy milk'', description = [],
      status = COMPLETED, createdAt = Date 1000, updatedAt = Date 1500\<rparr> = COMPLETED \<and>
   uncomplete 2000 \<lparr>id' = lit ''t1'', title = lit ''Buy milk'', description = [],
      status = COMPLETED, createdAt = Date 1000, updatedAt = Date 1500\<rparr> =
     (Inr (), \<lparr>id' = lit ''t1'', title = lit ''Buy milk'', description = [],
      status = PENDING, createdAt = Date 1000, updatedAt = Date 2000\<rparr>)"
  using
    uncomplete_strict [of "\<lparr>id' = lit ''t1'', title = lit ''Buy milk'', description = [],
      status = PENDING, createdAt = Date 1000, updatedAt = Date 1000\<rparr>" 2000]
    uncomplete_strict [of "\<lparr>id' = lit ''t1'', title = lit ''Buy milk'', description = [],
      status = COMPLETED, createdAt = Date 1000, updatedAt = Date 1500\<rparr>" 2000]
  by (simp add: uncomplete_def canBeUncompleted_def)

text \<open>
  C7. \<open>updateDescription\<close> never throws, whatever the string: the description becomes
  the trimmed input, \<open>updatedAt\<close> the clock reading, nothing else changes. An input made
  only of white space (the empty string included) leaves the empty description.
\<close>

theorem updateDescription_always_succeeds:
  "fst (updateDescription now newDescription t) = Inr () \<and>
   description (snd (updateDescription now newDescription t)) = trim newDescription \<and>
   updatedAt (snd (updateDescription now newDescription t)) = Date now \<and>
   snd (updateDescription now newDescription t) =
     t\<lparr>description := trim newDescription, updatedAt := Date now\<rparr> \<and>
   ((\<forall>c \<in> set newDescription. trimmable c) \<longrightarrow>
      description (snd (updateDescription now newDescription t)) = [])"
  by (simp add: updateDescription_def trim_Nil_iff)

theorem updateDescription_always_succeeds_witness:
  "trimmable 0x20 \<and> trimmable 0x0A \<and>
   updateDescription 2000 [0x20, 0x0A, 0x20]
     \<lparr>id' = lit ''t1'', title = lit ''Buy milk'', description = lit ''2 litres'',
      status = PENDING, createdAt = Date 1000, updatedAt = Date 1000\<rparr> =
     (Inr (), \<lparr>id' = lit ''t1'', title = lit ''Buy milk'', description = [],
      status = PENDING, createdAt = Date 1000, updatedAt = Date 2000\<rparr>) \<and>
   updateDescription 2000 (lit '' semi-skimmed '')
     \<lparr>id' = lit ''t1'', title = lit ''Buy milk'', description = lit ''2 litres'',
      status = PENDING, createdAt = Date 1000, updatedAt = Date 1000\<rparr> =
     (Inr (), \<lparr>id' = lit ''t1'', title = lit ''Buy milk'', description = lit ''semi-skimmed'',
      status = PENDING, createdAt = Date 1000, updatedAt = Date 2000\<rparr>)"
  using
    updateDescription_always_succeeds [of 2000 "[0x20, 0x0A, 0x20]"
      "\<lparr>id' = lit ''t1'', title = lit ''Buy milk'', description = lit ''2 litres'',
        status = PENDING, createdAt = Date 1000, updatedAt = Date 1000\<rparr>"]
    updateDescription_always_succeeds [of 2000 "lit '' semi-skimmed ''"
      "\<lparr>id' = lit ''t1'', title = lit ''Buy milk'', description = lit ''2 litres'',
        status = PENDING, createdAt = Date 1000, updatedAt = Date 1000\<rparr>"]
  by (simp add: updateDescription_def trim_eval)

text \<open>
  C8, as the code has it. No operation ever changes \<open>createdAt\<close>. A call that throws
  leaves the whole entity, \<open>updatedAt\<close> included, as it was, so \<open>updatedAt\<close> can change
  only in a call that succeeds; a call that succeeds sets \<open>updatedAt\<close> to the clock
  reading. Hence an entity constructed with \<open>createdAt \<le> updatedAt\<close> keeps that order
  through any history of calls whose clock readings are not before \<open>createdAt\<close>.
\<close>

theorem updatedAt_only_on_success:
  "createdAt (snd (call now op t)) = createdAt t \<and>
   (\<forall>e. fst (call now op t) = Inl e \<longrightarrow> snd (call now op t) = t) \<and>
   (updatedAt (snd (call now op t)) \<noteq> updatedAt t \<longrightarrow> fst (call now op t) = Inr ()) \<and>
   (fst (call now op t) = Inr () \<longrightarrow> updatedAt (snd (call now op t)) = Date now) \<and>
   (createdAt t \<le> updatedAt t \<and> (\<forall>(now, op) \<in> set ops. createdAt t \<le> Date now) \<longrightarrow>
      createdAt (calls ops t) = createdAt t \<and>
      createdAt (calls ops t) \<le> updatedAt (calls ops t))"
proof (intro conjI allI impI)
  show "createdAt (snd (call now op t)) = createdAt t" by (rule call_createdAt)
next
  fix e assume "fst (call now op t) = Inl e"
  then show "snd (call now op t) = t" by (rule call_failure_unchanged)
next
  assume changed: "updatedAt (snd (call now op t)) \<noteq> updatedAt t"
  show "fst (call now op t) = Inr ()"
  proof (cases "fst (call now op t)")
    case (Inl e)
    then have "snd (call now op t) = t" by (rule call_failure_unchanged)
    with changed show ?thesis by simp
  next
    case (Inr u)
    then show ?thesis by simp
  qed
next
  assume "fst (call now op t) = Inr ()"
  then show "updatedAt (snd (call now op t)) = Date now" by (rule call_success_updatedAt)
next
  assume "createdAt t \<le> updatedAt t \<and> (\<forall>(now, op) \<in> set ops. createdAt t \<le> Date now)"
  then show "createdAt (calls ops t) \<le> updatedAt (calls ops t)"
    by (simp add: calls_keep_order)
next
  show "createdAt (calls ops t) = createdAt t" by (rule calls_createdAt)
qed

theorem updatedAt_only_on_success_witness:
  "fst (call 2000 Uncomplete \<lparr>id' = lit ''t1'', title = lit ''Buy milk'', description = [],
      status = PENDING, createdAt = Date 1000, updatedAt = Date 1000\<rparr>) =
     Inl (Error (lit ''Todo is not completed'')) \<and>
   updatedAt (snd (call 2000 Uncomplete \<lparr>id' = lit ''t1'', title = lit ''Buy milk'',
      description = [], status = PENDING, createdAt = Date 1000, updatedAt = Date 1000\<rparr>)) = Date 1000 \<and>
   fst (call 2000 Complete \<lparr>id' = lit ''t1'', title = lit ''Buy milk'', description = [],
      status = PENDING, createdAt = Date 1000, updatedAt = Date 1000\<rparr>) = Inr () \<and>
   updatedAt (snd (call 2000 Complete \<lparr>id' = lit ''t1'', title = lit ''Buy milk'',
      description = [], status = PENDING, createdAt = Date 1000, updatedAt = Date 1000\<rparr>)) = Date 2000 \<and>
   Date 1000 \<le> Date 1000 \<and> Date 1000 \<le> Date 2000 \<and> Date 1000 \<le> Date 2500 \<and>
   Date 1000 \<le> Date 3000 \<and> Date 1000 \<le> Date 3500 \<and> Date 1000 \<le> Date 4000 \<and>
   calls [(2000, Complete), (2500, Complete), (3000, UpdateTitle []),
        (3500, Uncomplete), (4000, UpdateDescription (lit ''2 litres''))]
     \<lparr>id' = lit ''t1'', title = lit ''Buy milk'', description = [],
      status = PENDING, createdAt = Date 1000, updatedAt = Date 1000\<rparr> =
     \<lparr>id' = lit ''t1'', title = lit ''Buy milk'', description = lit ''2 litres'',
      status = PENDING, createdAt = Date 1000, updatedAt = Date 4000\<rparr>"
  using
    updatedAt_only_on_success [of 2000 Uncomplete "\<lparr>id' = lit ''t1'', title = lit ''Buy milk'',
      description = [], status = PENDING, createdAt = Date 1000, updatedAt = Date 1000\<rparr>"
      "[(2000, Complete), (2500, Complete), (3000, UpdateTitle []),
        (3500, Uncomplete), (4000, UpdateDescription (lit ''2 litres''))]"]
    updatedAt_only_on_success [of 2000 Complete "\<lparr>id' = lit ''t1'', title = lit ''Buy milk'',
      description = [], status = PENDING, createdAt = Date 1000, updatedAt = Date 1000\<rparr>" "[]"]
  by (simp add: complete_def uncomplete_def updateTitle_def updateDescription_def
      canBeCompleted_def canBeUncompleted_def trim_eval date_eval)

text \<open>
  The claim as written fails. The constructor validates nothing, so an entity can start
  with \<open>updatedAt\<close> before \<open>createdAt\<close>; an entity created ahead of the clock loses the
  order in a successful call; and a successful call at the very clock reading already
  stored leaves \<open>updatedAt\<close> at the same value.
\<close>

theorem updatedAt_ge_createdAt_counterexample:
  "\<not> createdAt \<lparr>id' = lit ''t1'', title = lit ''Buy milk'', description = [],
      status = PENDING, createdAt = Date 2000, updatedAt = Date 1000\<rparr>
     \<le> updatedAt \<lparr>id' = lit ''t1'', title = lit ''Buy milk'', description = [],
      status = PENDING, createdAt = Date 2000, updatedAt = Date 1000\<rparr> \<and>
   fst (complete 1000 \<lparr>id' = lit ''t1'', title = lit ''Buy milk'', description = [],
      status = PENDING, createdAt = Date 2000, updatedAt = Date 2000\<rparr>) = Inr () \<and>
   \<not> createdAt (snd (complete 1000 \<lparr>id' = lit ''t1'', title = lit ''Buy milk'',
      description = [], status = PENDING, createdAt = Date 2000, updatedAt = Date 2000\<rparr>))
     \<le> updatedAt (snd (complete 1000 \<lparr>id' = lit ''t1'', title = lit ''Buy milk'',
      description = [], status = PENDING, createdAt = Date 2000, updatedAt = Date 2000\<rparr>)) \<and>
   fst (complete 1000 \<lparr>id' = lit ''t1'', title = lit ''Buy milk'', description = [],
      status = PENDING, createdAt = Date 1000, updatedAt = Date 1000\<rparr>) = Inr () \<and>
   updatedAt (snd (complete 1000 \<lparr>id' = lit ''t1'', title = lit ''Buy milk'',
      description = [], status = PENDING, createdAt = Date 1000, updatedAt = Date 1000\<rparr>)) =
     updatedAt \<lparr>id' = lit ''t1'', title = lit ''Buy milk'', description = [],
      status = PENDING, createdAt = Date 1000, updatedAt = Date 1000\<rparr>"
  by (simp add: complete_def canBeCompleted_def trim_eval date_eval)

section \<open>Claims about the repository\<close>

lemma create_keeps_wf: "map_wf (todos r) \<Longrightarrow> map_wf (todos (snd (create todo r)))"
  by (simp add: create_def map_wf_map_set)

lemma update_keeps_wf: "map_wf (todos r) \<Longrightarrow> map_wf (todos (snd (update todo r)))"
  by (simp add: update_def map_wf_map_set)

lemma delete_keeps_wf: "map_wf (todos r) \<Longrightarrow> map_wf (todos (snd (delete i r)))"
  by (simp add: delete_def map_wf_map_delete)

lemma findById_eq_get: "findById i r = map_get i (todos r)"
  by (simp add: findById_def split: option.splits)

text \<open>
  C3. Round trip: after \<open>repo.create(t)\<close>, in any repository state, \<open>repo.findById(t.id)\<close>
  returns \<open>t\<close>, equal in every field; \<open>create\<close> itself returns \<open>t\<close>.
\<close>

theorem create_findById_roundtrip:
  "fst (create t r) = t \<and> findById (id' t) (snd (create t r)) = Some t"
  by (simp add: create_def findById_eq_get map_get_map_set)

text \<open>
  C4. On an id that is not a key of the store, \<open>update\<close> and \<open>delete\<close> reject with
  \<open>Error(`Todo with id ${id} not found`)\<close>, the specification's not-found error, and the
  repository is exactly as before. On a key of the store, \<open>update\<close> returns the supplied
  entity and stores it whole in the place of the old one, the keys and their order staying
  as they were, and \<open>delete\<close> leaves no entry for the id.
\<close>

theorem update_delete_not_found:
  "(map_has i (todos r) \<longleftrightarrow> findById i r \<noteq> None) \<and>
   (\<not> map_has (id' todo) (todos r) \<longrightarrow>
      update todo r = (Inl (Error (lit ''Todo with id '' @ id' todo @ lit '' not found'')), r)) \<and>
   (\<not> map_has i (todos r) \<longrightarrow>
      delete i r = (Inl (Error (lit ''Todo with id '' @ i @ lit '' not found'')), r)) \<and>
   (map_has (id' todo) (todos r) \<longrightarrow>
      fst (update todo r) = Inr todo \<and>
      findById (id' todo) (snd (update todo r)) = Some todo \<and>
      map fst (todos (snd (update todo r))) = map fst (todos r)) \<and>
   (map_has i (todos r) \<longrightarrow>
      fst (delete i r) = Inr () \<and>
      findById i (snd (delete i r)) = None \<and>
      \<not> map_has i (todos (snd (delete i r))))"
  by (simp add: update_def delete_def notFound_def findById_eq_get map_get_map_set
      map_get_map_delete map_has_iff_get keys_map_set_present)

theorem update_delete_not_found_witness:
  "\<not> map_has (lit ''missing'')
      (todos \<lparr>todos = [(lit ''t1'', \<lparr>id' = lit ''t1'', title = lit ''Buy milk'', description = [],
        status = PENDING, createdAt = Date 1000, updatedAt = Date 1000\<rparr>)]\<rparr>) \<and>
   delete (lit ''missing'')
      \<lparr>todos = [(lit ''t1'', \<lparr>id' = lit ''t1'', title = lit ''Buy milk'', description = [],
        status = PENDING, createdAt = Date 1000, updatedAt = Date 1000\<rparr>)]\<rparr> =
     (Inl (Error (lit ''Todo with id missing not found'')),
      \<lparr>todos = [(lit ''t1'', \<lparr>id' = lit ''t1'', title = lit ''Buy milk'', description = [],
        status = PENDING, createdAt = Date 1000, updatedAt = Date 1000\<rparr>)]\<rparr>) \<and>
   update \<lparr>id' = lit ''missing'', title = lit ''Buy tea'', description = [],
        status = PENDING, createdAt = Date 1500, updatedAt = Date 1500\<rparr>
      \<lparr>todos = [(lit ''t1'', \<lparr>id' = lit ''t1'', title = lit ''Buy milk'', description = [],
        status = PENDING, createdAt = Date 1000, updatedAt = Date 1000\<rparr>)]\<rparr> =
     (Inl (Error (lit ''Todo with id missing not found'')),
      \<lparr>todos = [(lit ''t1'', \<lparr>id' = lit ''t1'', title = lit ''Buy milk'', description = [],
        status = PENDING, createdAt = Date 1000, updatedAt = Date 1000\<rparr>)]\<rparr>) \<and>
   map_has (lit ''t1'')
      (todos \<lparr>todos = [(lit ''t1'', \<lparr>id' = lit ''t1'', title = lit ''Buy milk'', description = [],
        status = PENDING, createdAt = Date 1000, updatedAt = Date 1000\<rparr>)]\<rparr>) \<and>
   update \<lparr>id' = lit ''t1'', title = lit ''Buy milk'', description = [],
        status = COMPLETED, createdAt = Date 1000, updatedAt = Date 2000\<rparr>
      \<lparr>todos = [(lit ''t1'', \<lparr>id' = lit ''t1'', title = lit ''Buy milk'', description = [],
        status = PENDING, createdAt = Date 1000, updatedAt = Date 1000\<rparr>)]\<rparr> =
     (Inr \<lparr>id' = lit ''t1'', title = lit ''Buy milk'', description = [],
        status = COMPLETED, createdAt = Date 1000, updatedAt = Date 2000\<rparr>,
      \<lparr>todos = [(lit ''t1'', \<lparr>id' = lit ''t1'', title = lit ''Buy milk'', description = [],
        status = COMPLETED, createdAt = Date 1000, updatedAt = Date 2000\<rparr>)]\<rparr>) \<and>
   delete (lit ''t1'')
      \<lparr>todos = [(lit ''t1'', \<lparr>id' = lit ''t1'', title = lit ''Buy milk'', description = [],
        status = PENDING, createdAt = Date 1000, updatedAt = Date 1000\<rparr>)]\<rparr> =
     (Inr (), \<lparr>todos = []\<rparr>)"
  using
    update_delete_not_found [of "lit ''missing''"
      "\<lparr>todos = [(lit ''t1'', \<lparr>id' = lit ''t1'', title = lit ''Buy milk'', description = [],
        status = PENDING, createdAt = Date 1000, updatedAt = Date 1000\<rparr>)]\<rparr>"
      "\<lparr>id' = lit ''missing'', title = lit ''Buy tea'', description = [],
        status = PENDING, createdAt = Date 1500, updatedAt = Date 1500\<rparr>"]
    update_delete_not_found [of "lit ''t1''"
      "\<lparr>todos = [(lit ''t1'', \<lparr>id' = lit ''t1'', title = lit ''Buy milk'', description = [],
        status = PENDING, createdAt = Date 1000, updatedAt = Date 1000\<rparr>)]\<rparr>"
      "\<lparr>id' = lit ''t1'', title = lit ''Buy milk'', description = [],
        status = COMPLETED, createdAt = Date 1000, updatedAt = Date 2000\<rparr>"]
  by (simp add: update_def delete_def notFound_def map_has_def map_delete_def lit_def)

text \<open>
  C5, as the code has it. In every repository state \<open>findAll\<close> returns the stored
  entities, each as often as the store holds it (once per key); with distinct keys, as
  in a \<open>Map\<close>, these are exactly the entities that \<open>findById\<close> can return. When every
  stored entity has a valid \<open>createdAt\<close>, the result is newest first: \<open>createdAt\<close>
  never increases along it, so an entity created later than another (for instance one
  second later) stands before it.
\<close>

theorem findAll_newest_first_of_valid_dates:
  "mset (findAll r) = mset (map_values (todos r)) \<and>
   length (findAll r) = length (todos r) \<and>
   (map_wf (todos r) \<longrightarrow> set (findAll r) = {t. \<exists>k. findById k r = Some t}) \<and>
   (validCreatedAt r \<longrightarrow>
      sorted_wrt (\<lambda>a b. createdAt b \<le> createdAt a) (findAll r) \<and>
      (\<forall>i j. i < length (findAll r) \<and> j < length (findAll r) \<and>
         createdAt (findAll r ! j) < createdAt (findAll r ! i) \<longrightarrow> i < j))"
proof -
  have perm: "mset (findAll r) = mset (map_values (todos r))"
    by (simp add: findAll_def mset_array_sort)
  from perm have "size (mset (findAll r)) = size (mset (map_values (todos r)))" by simp
  then have len: "length (findAll r) = length (todos r)" by (simp add: map_values_def)
  have stored: "set (findAll r) = {t. \<exists>k. findById k r = Some t}" if "map_wf (todos r)"
  proof -
    from that have "ran (map_of (todos r)) = snd ` set (todos r)"
      by (simp add: map_wf_def ran_distinct)
    moreover from perm have "set (findAll r) = snd ` set (todos r)"
      by (metis map_values_def set_map set_mset_mset)
    ultimately show ?thesis
      by (simp add: ran_def findById_eq_get map_get_def)
  qed
  have sorted: "sorted_wrt (\<lambda>a b. createdAt b \<le> createdAt a) (findAll r)"
    if "validCreatedAt r"
    using that by (simp add: findAll_def validCreatedAt_def sorted_array_sort_byCreatedAtDesc)
  have before: "i < j"
    if valid: "validCreatedAt r"
      and h: "i < length (findAll r) \<and> j < length (findAll r) \<and>
        createdAt (findAll r ! j) < createdAt (findAll r ! i)"
    for i j
  proof (rule ccontr)
    assume "\<not> i < j"
    then consider "j = i" | "j < i" by linarith
    then show False
    proof cases
      case 1
      with h have "createdAt (findAll r ! i) < createdAt (findAll r ! i)" by simp
      then show False by (cases "createdAt (findAll r ! i)") (simp_all add: less_Date_def)
    next
      case 2
      with sorted [OF valid] h have "createdAt (findAll r ! i) \<le> createdAt (findAll r ! j)"
        by (simp add: sorted_wrt_iff_nth_less)
      with h show False by (blast dest: less_Date_not_le)
    qed
  qed
  from perm len stored sorted before show ?thesis by blast
qed

theorem findAll_newest_first_of_valid_dates_witness:
  "validCreatedAt (snd (create \<lparr>id' = lit ''t2'', title = lit ''Buy tea'', description = [],
        status = PENDING, createdAt = Date 2000, updatedAt = Date 2000\<rparr>
      (snd (create \<lparr>id' = lit ''t1'', title = lit ''Buy milk'', description = [],
        status = PENDING, createdAt = Date 1000, updatedAt = Date 1000\<rparr> \<lparr>todos = []\<rparr>)))) \<and>
   map_wf (todos (snd (create \<lparr>id' = lit ''t2'', title = lit ''Buy tea'', description = [],
        status = PENDING, createdAt = Date 2000, updatedAt = Date 2000\<rparr>
      (snd (create \<lparr>id' = lit ''t1'', title = lit ''Buy milk'', description = [],
        status = PENDING, createdAt = Date 1000, updatedAt = Date 1000\<rparr> \<lparr>todos = []\<rparr>))))) \<and>
   findAll (snd (create \<lparr>id' = lit ''t2'', title = lit ''Buy tea'', description = [],
        status = PENDING, createdAt = Date 2000, updatedAt = Date 2000\<rparr>
      (snd (create \<lparr>id' = lit ''t1'', title = lit ''Buy milk'', description = [],
        status = PENDING, createdAt = Date 1000, updatedAt = Date 1000\<rparr> \<lparr>todos = []\<rparr>)))) =
     [\<lparr>id' = lit ''t2'', title = lit ''Buy tea'', description = [],
        status = PENDING, createdAt = Date 2000, updatedAt = Date 2000\<rparr>,
      \<lparr>id' = lit ''t1'', title = lit ''Buy milk'', description = [],
        status = PENDING, createdAt = Date 1000, updatedAt = Date 1000\<rparr>] \<and>
   createdAt (findAll (snd (create \<lparr>id' = lit ''t2'', title = lit ''Buy tea'', description = [],
        status = PENDING, createdAt = Date 2000, updatedAt = Date 2000\<rparr>
      (snd (create \<lparr>id' = lit ''t1'', title = lit ''Buy milk'', description = [],
        status = PENDING, createdAt = Date 1000, updatedAt = Date 1000\<rparr> \<lparr>todos = []\<rparr>)))) ! 1)
     < createdAt (findAll (snd (create \<lparr>id' = lit ''t2'', title = lit ''Buy tea'', description = [],
        status = PENDING, createdAt = Date 2000, updatedAt = Date 2000\<rparr>
      (snd (create \<lparr>id' = lit ''t1'', title = lit ''Buy milk'', description = [],
        status = PENDING, createdAt = Date 1000, updatedAt = Date 1000\<rparr> \<lparr>todos = []\<rparr>)))) ! 0) \<and>
   findAll (snd (create \<lparr>id' = lit ''t1'', title = lit ''Buy milk'', description = [],
        status = PENDING, createdAt = Date 1000, updatedAt = Date 1000\<rparr>
      (snd (create \<lparr>id' = lit ''t2'', title = lit ''Buy tea'', description = [],
        status = PENDING, createdAt = Date 2000, updatedAt = Date 2000\<rparr> \<lparr>todos = []\<rparr>)))) =
     [\<lparr>id' = lit ''t2'', title = lit ''Buy tea'', description = [],
        status = PENDING, createdAt = Date 2000, updatedAt = Date 2000\<rparr>,
      \<lparr>id' = lit ''t1'', title = lit ''Buy milk'', description = [],
        status = PENDING, createdAt = Date 1000, updatedAt = Date 1000\<rparr>]"
  using
    findAll_newest_first_of_valid_dates [of "snd (create \<lparr>id' = lit ''t2'', title = lit ''Buy tea'', description = [],
        status = PENDING, createdAt = Date 2000, updatedAt = Date 2000\<rparr>
      (snd (create \<lparr>id' = lit ''t1'', title = lit ''Buy milk'', description = [],
        status = PENDING, createdAt = Date 1000, updatedAt = Date 1000\<rparr> \<lparr>todos = []\<rparr>)))"]
  by (simp add: findAll_def create_def array_sort_def byCreatedAtDesc_def map_values_def
      map_wf_def validCreatedAt_def date_eval lit_def)

text \<open>
  The claim as written fails in a store that holds an entity with an Invalid Date, which
  the constructor and \<open>create\<close> accept: the comparator answers \<open>NaN\<close> next to it, and
  the entity created at 1000 comes out before the one created a second later, at 2000.
\<close>

theorem findAll_invalid_date_counterexample:
  "findAll \<lparr>todos = [(lit ''a'', \<lparr>id' = lit ''a'', title = lit ''Buy milk'', description = [],
        status = PENDING, createdAt = Date 1000, updatedAt = Date 1000\<rparr>),
      (lit ''b'', \<lparr>id' = lit ''b'', title = lit ''Buy tea'', description = [],
        status = PENDING, createdAt = InvalidDate, updatedAt = InvalidDate\<rparr>),
      (lit ''c'', \<lparr>id' = lit ''c'', title = lit ''Buy bread'', description = [],
        status = PENDING, createdAt = Date 3000, updatedAt = Date 3000\<rparr>),
      (lit ''d'', \<lparr>id' = lit ''d'', title = lit ''Buy salt'', description = [],
        status = PENDING, createdAt = Date 2000, updatedAt = Date 2000\<rparr>)]\<rparr> =
     [\<lparr>id' = lit ''a'', title = lit ''Buy milk'', description = [],
        status = PENDING, createdAt = Date 1000, updatedAt = Date 1000\<rparr>,
      \<lparr>id' = lit ''b'', title = lit ''Buy tea'', description = [],
        status = PENDING, createdAt = InvalidDate, updatedAt = InvalidDate\<rparr>,
      \<lparr>id' = lit ''c'', title = lit ''Buy bread'', description = [],
        status = PENDING, createdAt = Date 3000, updatedAt = Date 3000\<rparr>,
      \<lparr>id' = lit ''d'', title = lit ''Buy salt'', description = [],
        status = PENDING, createdAt = Date 2000, updatedAt = Date 2000\<rparr>] \<and>
   createdAt (findAll \<lparr>todos = [(lit ''a'', \<lparr>id' = lit ''a'', title = lit ''Buy milk'', description = [],
        status = PENDING, createdAt = Date 1000, updatedAt = Date 1000\<rparr>),
      (lit ''b'', \<lparr>id' = lit ''b'', title = lit ''Buy tea'', description = [],
        status = PENDING, createdAt = InvalidDate, updatedAt = InvalidDate\<rparr>),
      (lit ''c'', \<lparr>id' = lit ''c'', title = lit ''Buy bread'', description = [],
        status = PENDING, createdAt = Date 3000, updatedAt = Date 3000\<rparr>),
      (lit ''d'', \<lparr>id' = lit ''d'', title = lit ''Buy salt'', description = [],
        status = PENDING, createdAt = Date 2000, updatedAt = Date 2000\<rparr>)]\<rparr> ! 0)
     < createdAt (findAll \<lparr>todos = [(lit ''a'', \<lparr>id' = lit ''a'', title = lit ''Buy milk'', description = [],
        status = PENDING, createdAt = Date 1000, updatedAt = Date 1000\<rparr>),
      (lit ''b'', \<lparr>id' = lit ''b'', title = lit ''Buy tea'', description = [],
        status = PENDING, createdAt = InvalidDate, updatedAt = InvalidDate\<rparr>),
      (lit ''c'', \<lparr>id' = lit ''c'', title = lit ''Buy bread'', description = [],
        status = PENDING, createdAt = Date 3000, updatedAt = Date 3000\<rparr>),
      (lit ''d'', \<lparr>id' = lit ''d'', title = lit ''Buy salt'', description = [],
        status = PENDING, createdAt = Date 2000, updatedAt = Date 2000\<rparr>)]\<rparr> ! 3)"
  by (simp add: findAll_def array_sort_def byCreatedAtDesc_def map_values_def date_eval)

text \<open>
  C9. Frame: \<open>create\<close>, \<open>update\<close> and \<open>delete\<close> leave what is stored under every other id
  as it was. The entries of the other keys, in their order, are the same before and
  after \<open>create\<close> and \<open>update\<close>; after \<open>delete\<close> the store is the old store without the
  entries of the deleted id, which is one entry cut out when the keys are distinct.
\<close>

theorem repository_frame:
  "(j \<noteq> id' todo \<longrightarrow>
      findById j (snd (create todo r)) = findById j r \<and>
      findById j (snd (update todo r)) = findById j r) \<and>
   (j \<noteq> i \<longrightarrow> findById j (snd (delete i r)) = findById j r) \<and>
   filter (\<lambda>e. fst e \<noteq> id' todo) (todos (snd (create todo r))) =
     filter (\<lambda>e. fst e \<noteq> id' todo) (todos r) \<and>
   filter (\<lambda>e. fst e \<noteq> id' todo) (todos (snd (update todo r))) =
     filter (\<lambda>e. fst e \<noteq> id' todo) (todos r) \<and>
   todos (snd (delete i r)) = filter (\<lambda>e. fst e \<noteq> i) (todos r) \<and>
   (map_wf (todos r) \<and> map_has i (todos r) \<longrightarrow>
      (\<exists>xs t ys. todos r = xs @ (i, t) # ys \<and> todos (snd (delete i r)) = xs @ ys))"
proof (intro conjI impI)
  assume "j \<noteq> id' todo"
  then show "findById j (snd (create todo r)) = findById j r"
    by (simp add: create_def findById_eq_get map_get_map_set)
  from \<open>j \<noteq> id' todo\<close> show "findById j (snd (update todo r)) = findById j r"
    by (simp add: update_def findById_eq_get map_get_map_set)
next
  assume "j \<noteq> i"
  then show "findById j (snd (delete i r)) = findById j r"
    by (simp add: delete_def findById_eq_get map_get_map_delete)
next
  show "filter (\<lambda>e. fst e \<noteq> id' todo) (todos (snd (create todo r))) =
     filter (\<lambda>e. fst e \<noteq> id' todo) (todos r)"
    by (simp add: create_def others_map_set)
next
  show "filter (\<lambda>e. fst e \<noteq> id' todo) (todos (snd (update todo r))) =
     filter (\<lambda>e. fst e \<noteq> id' todo) (todos r)"
    by (simp add: update_def others_map_set)
next
  show "todos (snd (delete i r)) = filter (\<lambda>e. fst e \<noteq> i) (todos r)"
  proof (cases "map_has i (todos r)")
    case True
    then show ?thesis by (simp add: delete_def map_delete_def)
  next
    case False
    then have "map_delete i (todos r) = todos r" by (rule map_delete_absent)
    with False show ?thesis by (simp add: delete_def map_delete_def)
  qed
next
  assume h: "map_wf (todos r) \<and> map_has i (todos r)"
  then obtain xs t ys where "todos r = xs @ (i, t) # ys" and "map_delete i (todos r) = xs @ ys"
    using map_delete_splits [of "todos r" i] by blast
  with h have "todos r = xs @ (i, t) # ys \<and> todos (snd (delete i r)) = xs @ ys"
    by (simp add: delete_def)
  then show "\<exists>xs t ys. todos r = xs @ (i, t) # ys \<and> todos (snd (delete i r)) = xs @ ys"
    by blast
qed

theorem repository_frame_witness:
  "lit ''t2'' \<noteq> lit ''t1'' \<and>
   map_wf [(lit ''t1'', \<lparr>id' = lit ''t1'', title = lit ''Buy milk'', description = [],
        status = PENDING, createdAt = Date 1000, updatedAt = Date 1000\<rparr>),
      (lit ''t2'', \<lparr>id' = lit ''t2'', title = lit ''Buy tea'', description = [],
        status = PENDING, createdAt = Date 2000, updatedAt = Date 2000\<rparr>)] \<and>
   map_has (lit ''t1'') [(lit ''t1'', \<lparr>id' = lit ''t1'', title = lit ''Buy milk'', description = [],
        status = PENDING, createdAt = Date 1000, updatedAt = Date 1000\<rparr>),
      (lit ''t2'', \<lparr>id' = lit ''t2'', title = lit ''Buy tea'', description = [],
        status = PENDING, createdAt = Date 2000, updatedAt = Date 2000\<rparr>)] \<and>
   todos (snd (delete (lit ''t1'')
      \<lparr>todos = [(lit ''t1'', \<lparr>id' = lit ''t1'', title = lit ''Buy milk'', description = [],
        status = PENDING, createdAt = Date 1000, updatedAt = Date 1000\<rparr>),
      (lit ''t2'', \<lparr>id' = lit ''t2'', title = lit ''Buy tea'', description = [],
        status = PENDING, createdAt = Date 2000, updatedAt = Date 2000\<rparr>)]\<rparr>)) =
     [(lit ''t2'', \<lparr>id' = lit ''t2'', title = lit ''Buy tea'', description = [],
        status = PENDING, createdAt = Date 2000, updatedAt = Date 2000\<rparr>)] \<and>
   findById (lit ''t2'') (snd (update \<lparr>id' = lit ''t1'', title = lit ''Buy milk'', description = [],
        status = COMPLETED, createdAt = Date 1000, updatedAt = Date 3000\<rparr>
      \<lparr>todos = [(lit ''t1'', \<lparr>id' = lit ''t1'', title = lit ''Buy milk'', description = [],
        status = PENDING, createdAt = Date 1000, updatedAt = Date 1000\<rparr>),
      (lit ''t2'', \<lparr>id' = lit ''t2'', title = lit ''Buy tea'', description = [],
        status = PENDING, createdAt = Date 2000, updatedAt = Date 2000\<rparr>)]\<rparr>)) =
     Some \<lparr>id' = lit ''t2'', title = lit ''Buy tea'', description = [],
        status = PENDING, createdAt = Date 2000, updatedAt = Date 2000\<rparr>"
  using
    repository_frame [of "lit ''t2''"
      "\<lparr>id' = lit ''t1'', title = lit ''Buy milk'', description = [],
        status = COMPLETED, createdAt = Date 1000, updatedAt = Date 3000\<rparr>"
      "\<lparr>todos = [(lit ''t1'', \<lparr>id' = lit ''t1'', title = lit ''Buy milk'', description = [],
        status = PENDING, createdAt = Date 1000, updatedAt = Date 1000\<rparr>),
      (lit ''t2'', \<lparr>id' = lit ''t2'', title = lit ''Buy tea'', description = [],
        status = PENDING, createdAt = Date 2000, updatedAt = Date 2000\<rparr>)]\<rparr>"
      "lit ''t1''"]
  by (simp add: delete_def update_def findById_def map_get_def map_has_def map_wf_def
      map_delete_def lit_def)

section \<open>Claims about the invokers\<close>

lemma map_get_registers:
  "map_get name (registers rs m) =
     (case map_of (rev rs) name of Some x \<Rightarrow> Some x | None \<Rightarrow> map_get name m)"
proof (induction rs arbitrary: m)
  case Nil
  show ?case by simp
next
  case (Cons r rs)
  obtain n x where r: "r = (n, x)" by (cases r)
  show ?case
    by (simp add: r Cons.IH register_def map_get_map_set map_add_def
        split: option.splits)
qed

lemma isInstance_truthy: "isInstance x \<Longrightarrow> ToBoolean x"
  by (cases x) simp_all

lemma instancesOnly_get: "instancesOnly m \<Longrightarrow> map_get name m = Some v \<Longrightarrow> isInstance v"
  by (induction m) (auto simp: instancesOnly_def map_get_def split: if_splits)

lemma invoke_of_after_register:
  "invoke_of noun name (register name x m) =
     (if ToBoolean x then Inr x else Inl (notRegistered noun name))"
  by (simp add: invoke_of_def register_def map_get_map_set)

lemma invoke_of_other_register:
  "name' \<noteq> name \<Longrightarrow> invoke_of noun name (register name' x m) = invoke_of noun name m"
  by (simp add: invoke_of_def register_def map_get_map_set)

lemma invoke_of_absent: "\<not> has name m \<Longrightarrow> invoke_of noun name m = Inl (notRegistered noun name)"
  by (simp add: invoke_of_def has_def map_has_iff_get)

lemma invoke_of_instance:
  "instancesOnly m \<Longrightarrow> map_get name m = Some v \<Longrightarrow> invoke_of noun name m = Inr v"
  by (simp add: invoke_of_def isInstance_truthy [OF instancesOnly_get])

lemma invoke_of_throws_iff:
  assumes "instancesOnly m"
  shows "(\<exists>e. invoke_of noun name m = Inl e) \<longleftrightarrow> \<not> has name m"
proof (cases "map_get name m")
  case None
  then have "\<not> has name m" by (simp add: has_def map_has_iff_get)
  then show ?thesis by (simp add: invoke_of_absent)
next
  case (Some v)
  with assms have "invoke_of noun name m = Inr v" by (rule invoke_of_instance)
  with Some show ?thesis by (simp add: has_def map_has_iff_get)
qed

lemma instancesOnly_register:
  "instancesOnly m \<Longrightarrow> isInstance x \<Longrightarrow> instancesOnly (register name x m)"
  by (induction m) (auto simp: instancesOnly_def register_def)

lemma instancesOnly_registers:
  "instancesOnly m \<Longrightarrow> instancesOnly rs \<Longrightarrow> instancesOnly (registers rs m)"
proof (induction rs arbitrary: m)
  case Nil
  then show ?case by simp
next
  case (Cons r rs)
  obtain n x where r: "r = (n, x)" by (cases r)
  from Cons.prems(2) have "isInstance x" and "instancesOnly rs"
    by (simp_all add: r instancesOnly_def)
  with Cons.prems(1) show ?case
    by (simp add: r Cons.IH instancesOnly_register)
qed

lemma invoke_of_registers:
  assumes "instancesOnly rs"
  shows "invoke_of noun name (registers rs []) =
     (case map_of (rev rs) name of
        Some x \<Rightarrow> Inr x
      | None \<Rightarrow> Inl (notRegistered noun name))"
proof -
  have "map_get name ([] :: js_value js_map) = None" by (simp add: map_get_def)
  then have get: "map_get name (registers rs []) = map_of (rev rs) name"
    by (simp add: map_get_registers split: option.splits)
  have only: "instancesOnly (registers rs [])"
    using assms by (intro instancesOnly_registers) (simp_all add: instancesOnly_def)
  show ?thesis
  proof (cases "map_of (rev rs) name")
    case None
    with get have "\<not> has name (registers rs [])" by (simp add: has_def map_has_iff_get)
    with None show ?thesis by (simp add: invoke_of_absent)
  next
    case (Some x)
    with get only have "invoke_of noun name (registers rs []) = Inr x"
      by (intro invoke_of_instance) simp_all
    with Some show ?thesis by simp
  qed
qed

text \<open>
  C10. On instances, which are objects: \<open>invoke(name)\<close> right after
  \<open>register(name, x)\<close> returns \<open>x\<close>, and a \<open>register\<close> under another name does not change
  its answer. On an invoker that holds instances, \<open>invoke(name)\<close> returns what is stored
  under the name and throws exactly when nothing is registered under it, with the message
  of its class. After any run of \<open>register\<close> calls on a fresh invoker the answer is the
  instance of the last call for that name, and an error when there was none. The three
  invokers agree but for the noun of the message.
\<close>

theorem invoke_returns_registered_instance:
  "(isInstance x \<longrightarrow>
      ServiceInvoker_invoke name (register name x m) = Inr x \<and>
      RepositoryInvoker_invoke name (register name x m) = Inr x \<and>
      LogicInvoker_invoke name (register name x m) = Inr x) \<and>
   (name' \<noteq> name \<longrightarrow>
      ServiceInvoker_invoke name (register name' y m) = ServiceInvoker_invoke name m \<and>
      RepositoryInvoker_invoke name (register name' y m) = RepositoryInvoker_invoke name m \<and>
      LogicInvoker_invoke name (register name' y m) = LogicInvoker_invoke name m) \<and>
   (instancesOnly m \<longrightarrow>
      ((\<exists>e. ServiceInvoker_invoke name m = Inl e) \<longleftrightarrow> \<not> has name m) \<and>
      ((\<exists>e. RepositoryInvoker_invoke name m = Inl e) \<longleftrightarrow> \<not> has name m) \<and>
      ((\<exists>e. LogicInvoker_invoke name m = Inl e) \<longleftrightarrow> \<not> has name m) \<and>
      (\<forall>v. map_get name m = Some v \<longrightarrow>
         ServiceInvoker_invoke name m = Inr v \<and>
         RepositoryInvoker_invoke name m = Inr v \<and>
         LogicInvoker_invoke name m = Inr v)) \<and>
   (\<not> has name m \<longrightarrow>
      ServiceInvoker_invoke name m = Inl (notRegistered (lit ''Service'') name) \<and>
      RepositoryInvoker_invoke name m = Inl (notRegistered (lit ''Repository'') name) \<and>
      LogicInvoker_invoke name m = Inl (notRegistered (lit ''Logic'') name)) \<and>
   (instancesOnly rs \<longrightarrow>
      (\<forall>v. map_of (rev rs) name = Some v \<longrightarrow>
         ServiceInvoker_invoke name (registers rs []) = Inr v \<and>
         RepositoryInvoker_invoke name (registers rs []) = Inr v \<and>
         LogicInvoker_invoke name (registers rs []) = Inr v) \<and>
      (map_of (rev rs) name = None \<longrightarrow>
         ServiceInvoker_invoke name (registers rs []) =
           Inl (notRegistered (lit ''Service'') name) \<and>
         RepositoryInvoker_invoke name (registers rs []) =
           Inl (notRegistered (lit ''Repository'') name) \<and>
         LogicInvoker_invoke name (registers rs []) =
           Inl (notRegistered (lit ''Logic'') name)))"
  unfolding ServiceInvoker_invoke_def RepositoryInvoker_invoke_def LogicInvoker_invoke_def
  by (simp add: invoke_of_after_register invoke_of_other_register invoke_of_throws_iff
      invoke_of_registers invoke_of_instance invoke_of_absent isInstance_truthy)

theorem invoke_returns_registered_instance_witness:
  "isInstance (JSObject 7) \<and> lit ''logger'' \<noteq> lit ''todoService'' \<and>
   ServiceInvoker_invoke (lit ''todoService'') (register (lit ''todoService'') (JSObject 7) []) =
     Inr (JSObject 7) \<and>
   ServiceInvoker_invoke (lit ''todoService'')
     (register (lit ''logger'') (JSObject 8) (register (lit ''todoService'') (JSObject 7) [])) =
     Inr (JSObject 7) \<and>
   instancesOnly [(lit ''todoService'', JSObject 7), (lit ''logger'', JSObject 8),
     (lit ''todoService'', JSObject 9)] \<and>
   map_of (rev [(lit ''todoService'', JSObject 7), (lit ''logger'', JSObject 8),
     (lit ''todoService'', JSObject 9)]) (lit ''todoService'') = Some (JSObject 9) \<and>
   LogicInvoker_invoke (lit ''todoService'')
     (registers [(lit ''todoService'', JSObject 7), (lit ''logger'', JSObject 8),
       (lit ''todoService'', JSObject 9)] []) = Inr (JSObject 9) \<and>
   instancesOnly [(lit ''todoService'', JSObject 7)] \<and>
   \<not> has (lit ''todoRepository'') [(lit ''todoService'', JSObject 7)] \<and>
   RepositoryInvoker_invoke (lit ''todoRepository'') [(lit ''todoService'', JSObject 7)] =
     Inl (Error (lit ''Repository 'todoRepository' not found. Did you register it?'')) \<and>
   map_get (lit ''todoService'') [(lit ''todoService'', JSObject 7)] = Some (JSObject 7) \<and>
   RepositoryInvoker_invoke (lit ''todoService'') [(lit ''todoService'', JSObject 7)] =
     Inr (JSObject 7)"
  using
    invoke_returns_registered_instance [of "JSObject 7" "lit ''todoService''"
      "[]" "lit ''logger''" "JSObject 8"
      "[(lit ''todoService'', JSObject 7), (lit ''logger'', JSObject 8),
        (lit ''todoService'', JSObject 9)]"]
    invoke_returns_registered_instance [of "JSObject 7" "lit ''todoRepository''"
      "[(lit ''todoService'', JSObject 7)]" "lit ''logger''" "JSObject 8" "[]"]
    invoke_returns_registered_instance [of "JSObject 7" "lit ''todoService''"
      "[(lit ''todoService'', JSObject 7)]" "lit ''logger''" "JSObject 8" "[]"]
  by (simp add: ServiceInvoker_invoke_def RepositoryInvoker_invoke_def LogicInvoker_invoke_def
      invoke_of_def register_def map_get_def has_def map_has_def notRegistered_def
      instancesOnly_def lit_def)

end
